theory Spec2Isabelle
  imports Main
begin

section \<open>The file-content dispatcher of pkg/handlers/handlers.go\<close>

text \<open>
  The dispatcher talks to four collaborators: the handler variants, the disk-buffered
  re-reader, the logger and two channels. Every call it makes to one of them is kept in
  a log, and every answer a collaborator gives is a parameter of the model, so that the
  theorems hold for whatever the collaborators answer.
\<close>

subsection \<open>Data\<close>

type_synonym bytes = string
type_synonym error = string

text \<open>
  An \<^verbatim>\<open>io.Reader\<close> value is known by its identity only: the caller's stream, the
  \<^verbatim>\<open>*DiskBufferReader\<close> that the i-th iteration of the loop constructs, or some other
  reader that a handler hands back.
\<close>

datatype reader = RawFile | DiskBufferReader nat | Wrapped nat

text \<open>
  \<^verbatim>\<open>sources.Chunk\<close> is declared outside this file. The relay writes its field
  \<^verbatim>\<open>Data\<close> and copies all the others, which are kept together as \<open>Metadata\<close>.
\<close>

record 'm Chunk =
  Metadata :: 'm
  Data :: bytes

text \<open>
  A \<^verbatim>\<open>Handler\<close> is an interface value. \<open>hname\<close> is the identity of the value behind
  it; \<open>IsFiletype\<close> and \<open>FromFile\<close> are its methods (\<^verbatim>\<open>New()\<close> returns nothing);
  \<open>HandleSpecialized\<close> is \<open>None\<close> when the type assertion
  \<^verbatim>\<open>h.(SpecializedHandler)\<close> fails. The channel \<open>FromFile\<close> returns is the list of
  payloads its producer sends before closing it.
\<close>

record Handler =
  hname :: string
  IsFiletype :: "reader \<Rightarrow> reader \<times> bool"
  FromFile :: "reader \<Rightarrow> bytes list"
  HandleSpecialized :: "(reader \<Rightarrow> reader \<times> bool \<times> error option) option"

text \<open>The calls the dispatcher makes, in the order it makes them.\<close>

datatype event =
    ENew string
  | EConstruct reader
  | EHandleSpecialized string reader
  | ELogError error string
  | ESeek reader
  | EIsFiletype string reader
  | EFromFile string reader
  | EStop reader
  | EClose reader

text \<open>
  One \<^verbatim>\<open>select\<close> of the relay, at the moment it stops waiting. Both selects have two
  cases, a channel operation and \<^verbatim>\<open><-ctx.Done()\<close>, and neither has a default.
  \<open>ChanOp c\<close>: the channel operation is taken; \<open>c\<close> tells whether the context was
  already cancelled then. \<open>CtxDone\<close>: the case \<^verbatim>\<open><-ctx.Done()\<close> is taken, which a select
  can do only once the context is cancelled. When several cases of a Go select can
  proceed, one of them is chosen at random: a cancelled context does not force its case
  while the channel operation can proceed too, and the function has no other test of
  the context.
\<close>

datatype select = ChanOp bool | CtxDone

fun cancelled_at :: "select \<Rightarrow> bool" where
  "cancelled_at (ChanOp c) = c"
| "cancelled_at CtxDone = True"

text \<open>
  The state a dispatch call works on: \<open>ticks\<close>, how the selects still to come will go;
  \<open>chunksChan\<close>, what has been sent on the output channel; \<open>calls\<close>, the log.
  A select has an entry in \<open>ticks\<close> when it stops waiting: the producer has sent a
  payload or closed its channel, the consumer has received, or the context is cancelled.
  When no entry is left, the next select waits for ever.
\<close>

record 'm world =
  ticks :: "select list"
  chunksChan :: "'m Chunk list"
  calls :: "event list"

text \<open>
  What the re-reader package answers: \<open>New_error i\<close> is the error of
  \<^verbatim>\<open>diskbufferreader.New(file)\<close> in iteration \<open>i\<close> of the loop, \<open>Seek_error r\<close> the error of
  \<^verbatim>\<open>r.Seek(0, io.SeekStart)\<close>.
\<close>

record env =
  New_error :: "nat \<Rightarrow> error option"
  Seek_error :: "reader \<Rightarrow> error option"

definition emit :: "event list \<Rightarrow> 'm world \<Rightarrow> 'm world" where
  "emit es w = w\<lparr>calls := calls w @ es\<rparr>"

definition diskbufferreader_New :: "env \<Rightarrow> nat \<Rightarrow> error + reader" where
  "diskbufferreader_New e i =
     (case New_error e i of Some err \<Rightarrow> Inl err | None \<Rightarrow> Inr (DiskBufferReader i))"

subsection \<open>handleChunks\<close>

text \<open>
  The result is \<open>None\<close> when the function never returns. The loop ends with the
  producer's channel: each round takes one payload from it.
\<close>

fun handleChunks :: "bytes list \<Rightarrow> 'm Chunk \<Rightarrow> 'm world \<Rightarrow> bool option \<times> 'm world" where
  "handleChunks handlerChan chunkSkel w =
     (case ticks w of
        [] \<Rightarrow> (None, w)
      | CtxDone # ts \<Rightarrow> \<comment> \<open>\<^verbatim>\<open>case <-ctx.Done()\<close>\<close>
          (Some False, w\<lparr>ticks := ts\<rparr>)
      | ChanOp _ # ts \<Rightarrow> \<comment> \<open>\<^verbatim>\<open>case data, open := <-handlerChan\<close>\<close>
          (case handlerChan of
             [] \<Rightarrow> (Some True, w\<lparr>ticks := ts\<rparr>)
           | data # rest \<Rightarrow>
               (let chunk = chunkSkel\<lparr>Data := data\<rparr> in
                case ts of
                  [] \<Rightarrow> (None, w\<lparr>ticks := []\<rparr>)
                | CtxDone # ts' \<Rightarrow> \<comment> \<open>\<^verbatim>\<open>case <-ctx.Done()\<close>\<close>
                    (Some False, w\<lparr>ticks := ts'\<rparr>)
                | ChanOp _ # ts' \<Rightarrow> \<comment> \<open>\<^verbatim>\<open>case chunksChan <- &chunk\<close>\<close>
                    handleChunks rest chunkSkel
                      (w\<lparr>ticks := ts', chunksChan := chunksChan w @ [chunk]\<rparr>))))"

declare handleChunks.simps [simp del]

subsection \<open>processHandler\<close>

text \<open>Lines 76 to 85: the seek back to the start, the type check, the relay.\<close>

definition processHandler_ordinary ::
  "env \<Rightarrow> Handler \<Rightarrow> reader \<Rightarrow> 'm Chunk \<Rightarrow> 'm world \<Rightarrow> bool option \<times> 'm world" where
  "processHandler_ordinary e h reReader chunkSkel w =
     (case Seek_error e reReader of
        Some err \<Rightarrow>
          (Some False, emit [ESeek reReader, ELogError err ''error seeking to start of file''] w)
      | None \<Rightarrow>
          (let w1 = emit [ESeek reReader, EIsFiletype (hname h) reReader] w in
           if \<not> snd (IsFiletype h reReader) then (Some False, w1)
           else handleChunks (FromFile h reReader) chunkSkel
                  (emit [EFromFile (hname h) reReader] w1)))"

text \<open>The body of the function, without the two deferred calls.\<close>

definition processHandler_body ::
  "env \<Rightarrow> Handler \<Rightarrow> reader \<Rightarrow> 'm Chunk \<Rightarrow> 'm world \<Rightarrow> bool option \<times> 'm world" where
  "processHandler_body e h reReader chunkSkel w =
     (case HandleSpecialized h of
        None \<Rightarrow> processHandler_ordinary e h reReader chunkSkel w
      | Some handleSpecialized \<Rightarrow>
          (let w1 = emit [EHandleSpecialized (hname h) reReader] w in
           case handleSpecialized reReader of
             (file, isSpecial, err) \<Rightarrow>
               if isSpecial
               then handleChunks (FromFile h file) chunkSkel (emit [EFromFile (hname h) file] w1)
               else processHandler_ordinary e h reReader chunkSkel
                      (case err of
                         None \<Rightarrow> w1
                       | Some er \<Rightarrow> emit [ELogError er ''error handling file''] w1)))"

text \<open>
  The deferred calls run when the function returns, last deferred first:
  \<^verbatim>\<open>Stop\<close>, then \<^verbatim>\<open>Close\<close>. They do not run when it never returns.
\<close>

definition processHandler ::
  "env \<Rightarrow> Handler \<Rightarrow> reader \<Rightarrow> 'm Chunk \<Rightarrow> 'm world \<Rightarrow> bool option \<times> 'm world" where
  "processHandler e h reReader chunkSkel w =
     (case processHandler_body e h reReader chunkSkel w of
        (None, w') \<Rightarrow> (None, w')
      | (Some success, w') \<Rightarrow> (Some success, emit [EStop reReader, EClose reReader] w'))"

subsection \<open>HandleFile\<close>

text \<open>
  The loop over the handlers, from iteration \<open>i\<close> on. Every iteration wraps the same
  \<^verbatim>\<open>file\<close>.
\<close>

fun HandleFile_loop ::
  "env \<Rightarrow> nat \<Rightarrow> Handler list \<Rightarrow> 'm Chunk \<Rightarrow> 'm world \<Rightarrow> bool option \<times> 'm world" where
  "HandleFile_loop e i [] chunkSkel w = (Some False, w)"
| "HandleFile_loop e i (h # hs) chunkSkel w =
     (let w1 = emit [ENew (hname h), EConstruct RawFile] w in
      case diskbufferreader_New e i of
        Inl err \<Rightarrow> (Some False, emit [ELogError err ''error creating reusable reader''] w1)
      | Inr reReader \<Rightarrow>
          (case processHandler e h reReader chunkSkel w1 of
             (None, w2) \<Rightarrow> (None, w2)
           | (Some success, w2) \<Rightarrow>
               if success then (Some True, w2)
               else HandleFile_loop e (Suc i) hs chunkSkel w2))"

text \<open>
  \<^verbatim>\<open>Archive\<close> is declared outside this file: the one handler variant that is registered
  is a parameter.
\<close>

definition DefaultHandlers :: "Handler \<Rightarrow> Handler list" where
  "DefaultHandlers archive = [archive]"

definition HandleFile :: "env \<Rightarrow> Handler \<Rightarrow> 'm Chunk \<Rightarrow> 'm world \<Rightarrow> bool option \<times> 'm world" where
  "HandleFile e archive chunkSkel w = HandleFile_loop e 0 (DefaultHandlers archive) chunkSkel w"

subsection \<open>The vocabulary of the properties\<close>

text \<open>The select takes the channel operation.\<close>

fun is_ChanOp :: "select \<Rightarrow> bool" where
  "is_ChanOp (ChanOp c) = True"
| "is_ChanOp CtxDone = False"

text \<open>
  The context is cancelled when \<open>m\<close> payloads have been forwarded: the selects before the
  cancellation are the two of each forwarded payload (and maybe the receive of the
  next one); the relay still has a select to make; the context stays cancelled.
\<close>

definition cancelled_after :: "nat \<Rightarrow> select list \<Rightarrow> bool" where
  "cancelled_after m ts =
     (let pre = takeWhile (\<lambda>t. \<not> cancelled_at t) ts;
          post = dropWhile (\<lambda>t. \<not> cancelled_at t) ts
      in (length pre = 2 * m \<or> length pre = 2 * m + 1) \<and> post \<noteq> [] \<and> list_all cancelled_at post)"

text \<open>Two states with the same channels: they differ in the log only.\<close>

definition same_channels :: "'m world \<Rightarrow> 'm world \<Rightarrow> bool" where
  "same_channels w w' = (ticks w = ticks w' \<and> chunksChan w = chunksChan w')"

text \<open>The variant's specialized path accepts the stream.\<close>

definition recognizes :: "Handler \<Rightarrow> reader \<Rightarrow> bool" where
  "recognizes h r =
     (case HandleSpecialized h of
        None \<Rightarrow> False
      | Some handleSpecialized \<Rightarrow> fst (snd (handleSpecialized r)))"

text \<open>
  The variant accepts the stream: by its specialized path, or by its type check, which
  is made once the seek back to the start has succeeded.
\<close>

definition accepts :: "env \<Rightarrow> Handler \<Rightarrow> reader \<Rightarrow> bool" where
  "accepts e h r = (recognizes h r \<or> (Seek_error e r = None \<and> snd (IsFiletype h r)))"

text \<open>
  The reader that the variant's chunk producer is given in an attempt that accepts: the
  one its specialized path hands back when it recognizes the stream, the re-reader
  otherwise.
\<close>

definition fed :: "Handler \<Rightarrow> reader \<Rightarrow> reader" where
  "fed h r =
     (case HandleSpecialized h of
        None \<Rightarrow> r
      | Some handleSpecialized \<Rightarrow>
          (case handleSpecialized r of
             (file, isSpecial, err) \<Rightarrow> if isSpecial then file else r))"

text \<open>The channel of the variant's chunk producer in an attempt that accepts.\<close>

definition producer :: "Handler \<Rightarrow> reader \<Rightarrow> bytes list" where
  "producer h r = FromFile h (fed h r)"

text \<open>The calls of the specialized step when it does not recognize the stream.\<close>

definition specialized_calls :: "Handler \<Rightarrow> reader \<Rightarrow> event list" where
  "specialized_calls h r =
     (case HandleSpecialized h of
        None \<Rightarrow> []
      | Some handleSpecialized \<Rightarrow>
          EHandleSpecialized (hname h) r #
          (case snd (snd (handleSpecialized r)) of
             None \<Rightarrow> []
           | Some er \<Rightarrow> [ELogError er ''error handling file'']))"

text \<open>The calls a run has added to the log.\<close>

definition new_calls :: "'m world \<Rightarrow> 'm world \<Rightarrow> event list" where
  "new_calls w w' = drop (length (calls w)) (calls w')"

text \<open>The chunk the relay makes of a payload.\<close>

definition clone :: "'m Chunk \<Rightarrow> bytes \<Rightarrow> 'm Chunk" where
  "clone chunkSkel data = chunkSkel\<lparr>Data := data\<rparr>"

text \<open>The calls of the body of an attempt that does not accept the stream.\<close>

definition rejected_calls :: "env \<Rightarrow> Handler \<Rightarrow> reader \<Rightarrow> event list" where
  "rejected_calls e h r =
     specialized_calls h r @
     (case Seek_error e r of
        Some err \<Rightarrow> [ESeek r, ELogError err ''error seeking to start of file'']
      | None \<Rightarrow> [ESeek r, EIsFiletype (hname h) r])"

text \<open>The calls of the body of an attempt, whichever way it goes.\<close>

definition body_calls :: "env \<Rightarrow> Handler \<Rightarrow> reader \<Rightarrow> event list" where
  "body_calls e h r =
     (if recognizes h r then [EHandleSpecialized (hname h) r, EFromFile (hname h) (fed h r)]
      else if accepts e h r
        then specialized_calls h r @ [ESeek r, EIsFiletype (hname h) r, EFromFile (hname h) r]
      else rejected_calls e h r)"

text \<open>The calls that release a re-reader.\<close>

fun is_release :: "event \<Rightarrow> bool" where
  "is_release (EStop r) = True"
| "is_release (EClose r) = True"
| "is_release ev = False"

subsection \<open>Collaborators of the examples\<close>

text \<open>
  A re-reader package that never fails, one whose seek fails on the first re-reader,
  one whose construction fails.
\<close>

definition env_ok :: env where
  "env_ok = \<lparr>New_error = (\<lambda>i. None), Seek_error = (\<lambda>r. None)\<rparr>"

definition env_seek_fails :: env where
  "env_seek_fails =
     \<lparr>New_error = (\<lambda>i. None),
      Seek_error = (\<lambda>r. if r = DiskBufferReader 0 then Some ''seek failed'' else None)\<rparr>"

definition env_new_fails :: env where
  "env_new_fails = \<lparr>New_error = (\<lambda>i. Some ''no space left''), Seek_error = (\<lambda>r. None)\<rparr>"

text \<open>
  A variant with no specialized path whose type check accepts and hands back another
  reader; a variant that rejects; a variant whose specialized path recognizes the stream
  and reports an error with it; a variant whose specialized path only reports an error.
\<close>

definition h_plain :: Handler where
  "h_plain = \<lparr>hname = ''plain'', IsFiletype = (\<lambda>r. (Wrapped 7, True)),
              FromFile = (\<lambda>r. if r = DiskBufferReader 0 \<or> r = DiskBufferReader 1
                               then [''a'', ''bc''] else [''zz'']),
              HandleSpecialized = None\<rparr>"

definition h_reject :: Handler where
  "h_reject = \<lparr>hname = ''reject'', IsFiletype = (\<lambda>r. (r, False)),
               FromFile = (\<lambda>r. [''no'']),
               HandleSpecialized = Some (\<lambda>r. (r, False, None))\<rparr>"

definition h_special :: Handler where
  "h_special = \<lparr>hname = ''special'', IsFiletype = (\<lambda>r. (r, False)),
                FromFile = (\<lambda>r. if r = Wrapped 3 then [''deb''] else [''raw'']),
                HandleSpecialized = Some (\<lambda>r. (Wrapped 3, True, Some ''trailing garbage''))\<rparr>"

definition h_special_error :: Handler where
  "h_special_error = \<lparr>hname = ''broken'', IsFiletype = (\<lambda>r. (r, True)),
                      FromFile = (\<lambda>r. [''x'']),
                      HandleSpecialized = Some (\<lambda>r. (Wrapped 3, False, Some ''not an archive''))\<rparr>"

definition skel_t1 :: "string Chunk" where
  "skel_t1 = \<lparr>Metadata = ''t1'', Data = []\<rparr>"

text \<open>A state with an empty output channel and the given selects to come.\<close>

definition world0 :: "select list \<Rightarrow> string world" where
  "world0 ts = \<lparr>ticks = ts, chunksChan = [], calls = []\<rparr>"

section \<open>Properties\<close>

subsection \<open>The relay\<close>

text \<open>The round in which the producer's channel is found closed, and the other rounds.\<close>

lemma handleChunks_closed [simp]:
  "handleChunks [] chunkSkel w =
     (case ticks w of
        [] \<Rightarrow> (None, w)
      | CtxDone # ts \<Rightarrow> (Some False, w\<lparr>ticks := ts\<rparr>)
      | ChanOp _ # ts \<Rightarrow> (Some True, w\<lparr>ticks := ts\<rparr>))"
  by (subst handleChunks.simps) (simp split: list.splits select.splits)

lemma handleChunks_payload [simp]:
  "handleChunks (data # handlerChan) chunkSkel w =
     (case ticks w of
        [] \<Rightarrow> (None, w)
      | CtxDone # ts \<Rightarrow> (Some False, w\<lparr>ticks := ts\<rparr>)
      | ChanOp _ # ts \<Rightarrow>
          (case ts of
             [] \<Rightarrow> (None, w\<lparr>ticks := []\<rparr>)
           | CtxDone # ts' \<Rightarrow> (Some False, w\<lparr>ticks := ts'\<rparr>)
           | ChanOp _ # ts' \<Rightarrow>
               handleChunks handlerChan chunkSkel
                 (w\<lparr>ticks := ts', chunksChan := chunksChan w @ [chunkSkel\<lparr>Data := data\<rparr>]\<rparr>)))"
  by (subst handleChunks.simps) (simp split: list.splits select.splits)

lemma handleChunks_calls: "calls (snd (handleChunks ps skel w)) = calls w"
  by (induction ps arbitrary: w) (auto split: list.splits select.splits)

text \<open>As long as every select takes its channel operation, the relay forwards.\<close>

lemma handleChunks_runs_out:
  "ticks w = pre @ rest \<Longrightarrow> list_all is_ChanOp pre \<Longrightarrow> length pre = 2 * length ps + 1 \<Longrightarrow>
   handleChunks ps skel w =
     (Some True, w\<lparr>ticks := rest, chunksChan := chunksChan w @ map (clone skel) ps\<rparr>)"
proof (induction ps arbitrary: w pre)
  case Nil
  then obtain a where "pre = [a]"
    by (cases pre) auto
  with Nil show ?case by (cases a) simp_all
next
  case (Cons d ps)
  then obtain a b pre' where pre: "pre = a # b # pre'"
    by (cases pre; cases "tl pre") auto
  with Cons.prems obtain ca cb where ab: "a = ChanOp ca" "b = ChanOp cb"
    by (cases a; cases b) auto
  let ?w = "w\<lparr>ticks := pre' @ rest, chunksChan := chunksChan w @ [clone skel d]\<rparr>"
  have "handleChunks (d # ps) skel w = handleChunks ps skel ?w"
    using Cons.prems(1) pre ab by (simp add: clone_def)
  also have "\<dots> = (Some True, ?w\<lparr>ticks := rest,
      chunksChan := chunksChan ?w @ map (clone skel) ps\<rparr>)"
    using Cons.prems pre by (intro Cons.IH[of ?w pre']) auto
  finally show ?case by simp
qed

text \<open>The first select that takes the cancellation ends the relay.\<close>

lemma handleChunks_cancelled:
  "ticks w = pre @ CtxDone # rest \<Longrightarrow> list_all is_ChanOp pre \<Longrightarrow>
   length pre = 2 * m \<or> length pre = 2 * m + 1 \<Longrightarrow> m < length ps \<Longrightarrow>
   handleChunks ps skel w =
     (Some False, w\<lparr>ticks := rest, chunksChan := chunksChan w @ map (clone skel) (take m ps)\<rparr>)"
proof (induction ps arbitrary: w pre m)
  case Nil
  then show ?case by simp
next
  case (Cons d ps)
  show ?case
  proof (cases pre)
    case Nil
    with Cons.prems show ?thesis by simp
  next
    case outer: (Cons a pre1)
    with Cons.prems obtain ca where a: "a = ChanOp ca" by (cases a) auto
    show ?thesis
    proof (cases pre1)
      case Nil
      with Cons.prems outer a show ?thesis by simp
    next
      case inner: (Cons b pre')
      with Cons.prems outer obtain cb where b: "b = ChanOp cb" by (cases b) auto
      from Cons.prems outer inner obtain m' where m: "m = Suc m'" by (cases m) auto
      let ?w = "w\<lparr>ticks := pre' @ CtxDone # rest, chunksChan := chunksChan w @ [clone skel d]\<rparr>"
      have "handleChunks (d # ps) skel w = handleChunks ps skel ?w"
        using Cons.prems(1) outer inner a b by (simp add: clone_def)
      also have "\<dots> = (Some False, ?w\<lparr>ticks := rest,
          chunksChan := chunksChan ?w @ map (clone skel) (take m' ps)\<rparr>)"
        using Cons.prems outer inner m by (intro Cons.IH[of ?w pre' m']) auto
      finally show ?thesis using m by simp
    qed
  qed
qed

lemma not_cancelled_is_ChanOp: "\<not> cancelled_at t \<Longrightarrow> is_ChanOp t"
  by (cases t) simp_all

lemma handleChunks_never_cancelled:
  assumes "list_all (\<lambda>t. \<not> cancelled_at t) (ticks w)"
    and "2 * length ps + 1 \<le> length (ticks w)"
  shows "handleChunks ps skel w =
           (Some True,
            w\<lparr>ticks := drop (2 * length ps + 1) (ticks w),
              chunksChan := chunksChan w @ map (clone skel) ps\<rparr>)"
proof -
  let ?n = "2 * length ps + 1"
  have split: "ticks w = take ?n (ticks w) @ drop ?n (ticks w)" by simp
  have "list_all is_ChanOp (ticks w)"
    using assms(1) by (auto simp: list_all_iff intro: not_cancelled_is_ChanOp)
  then have all: "list_all is_ChanOp (take ?n (ticks w))"
    by (auto simp: list_all_iff dest: in_set_takeD)
  have len: "length (take ?n (ticks w)) = ?n"
    using assms(2) by simp
  from handleChunks_runs_out[OF split all len] show ?thesis .
qed

text \<open>
  C2. When the context is never cancelled and the producer sends N payloads and closes
  its channel, handleChunks sends N chunks on the output channel, in the order of the
  payloads, each one the template with the payload as its data, and returns true. The
  selects of such a run, two for each payload and one for the closed channel, all stop
  waiting: the producer sends and the consumer receives.
\<close>

theorem handleChunks_forwards_all:
  assumes "list_all (\<lambda>t. \<not> cancelled_at t) (ticks w)"
    and "2 * length payloads + 1 \<le> length (ticks w)"
  shows "handleChunks payloads chunkSkel w =
           (Some True,
            w\<lparr>ticks := drop (2 * length payloads + 1) (ticks w),
              chunksChan := chunksChan w @ map (\<lambda>data. chunkSkel\<lparr>Data := data\<rparr>) payloads\<rparr>)"
proof -
  have "map (clone chunkSkel) payloads = map (\<lambda>data. chunkSkel\<lparr>Data := data\<rparr>) payloads"
    by (simp add: clone_def)
  with handleChunks_never_cancelled[OF assms, of chunkSkel] show ?thesis by simp
qed

theorem handleChunks_forwards_all_witness:
  "list_all (\<lambda>t. \<not> cancelled_at t)
     (ticks \<lparr>ticks = [ChanOp False, ChanOp False, ChanOp False, ChanOp False, ChanOp False,
                      ChanOp False, ChanOp False],
            chunksChan = [], calls = []\<rparr>) \<and>
   handleChunks [''a'', ''bc'', ''def''] \<lparr>Metadata = ''t1'', Data = []\<rparr>
     \<lparr>ticks = [ChanOp False, ChanOp False, ChanOp False, ChanOp False, ChanOp False,
               ChanOp False, ChanOp False],
      chunksChan = [], calls = []\<rparr> =
   (Some True,
    \<lparr>ticks = [],
     chunksChan = [\<lparr>Metadata = ''t1'', Data = ''a''\<rparr>, \<lparr>Metadata = ''t1'', Data = ''bc''\<rparr>,
                   \<lparr>Metadata = ''t1'', Data = ''def''\<rparr>],
     calls = []\<rparr>)"
  using handleChunks_forwards_all
    [of "\<lparr>ticks = [ChanOp False, ChanOp False, ChanOp False, ChanOp False, ChanOp False,
                   ChanOp False, ChanOp False],
         chunksChan = [], calls = []\<rparr>"
        "[''a'', ''bc'', ''def'']" "\<lparr>Metadata = ''t1'', Data = []\<rparr>"]
  by simp

text \<open>The relay reads the channels only: the log does not change what it does.\<close>

lemma handleChunks_same_channels:
  "same_channels w w' \<Longrightarrow>
   fst (handleChunks ps skel w) = fst (handleChunks ps skel w') \<and>
   same_channels (snd (handleChunks ps skel w)) (snd (handleChunks ps skel w'))"
proof (induction ps arbitrary: w w')
  case Nil
  then show ?case
    by (auto simp: same_channels_def split: list.splits select.splits)
next
  case (Cons d ps)
  from Cons.prems have eq: "ticks w = ticks w'" "chunksChan w = chunksChan w'"
    by (simp_all add: same_channels_def)
  show ?case
  proof (cases "ticks w")
    case Nil
    with eq Cons.prems show ?thesis by simp
  next
    case outer: (Cons a ts)
    show ?thesis
    proof (cases a)
      case CtxDone
      with outer eq show ?thesis by (simp add: same_channels_def)
    next
      case (ChanOp c)
      show ?thesis
      proof (cases ts)
        case Nil
        with outer ChanOp eq show ?thesis by (simp add: same_channels_def)
      next
        case inner: (Cons b ts')
        show ?thesis
        proof (cases b)
          case CtxDone
          with outer inner ChanOp eq show ?thesis by (simp add: same_channels_def)
        next
          case send: (ChanOp c')
          have "same_channels (w\<lparr>ticks := ts', chunksChan := chunksChan w @ [skel\<lparr>Data := d\<rparr>]\<rparr>)
                  (w'\<lparr>ticks := ts', chunksChan := chunksChan w' @ [skel\<lparr>Data := d\<rparr>]\<rparr>)"
            using eq by (simp add: same_channels_def)
          from Cons.IH[OF this] show ?thesis
            using outer inner ChanOp send eq by simp
        qed
      qed
    qed
  qed
qed

lemma same_channels_emit [simp]: "same_channels (emit es w) w" "same_channels w (emit es w)"
  by (simp_all add: same_channels_def emit_def)

lemma same_channels_refl [simp]: "same_channels w w"
  by (simp add: same_channels_def)

lemma same_channels_trans: "same_channels a b \<Longrightarrow> same_channels b c \<Longrightarrow> same_channels a c"
  by (simp add: same_channels_def)

lemma emit_emit [simp]: "emit es' (emit es w) = emit (es @ es') w"
  by (simp add: emit_def)

subsection \<open>One attempt\<close>

lemma processHandler_body_not_recognized:
  assumes "\<not> recognizes h r"
  shows "processHandler_body e h r skel w =
     processHandler_ordinary e h r skel (emit (specialized_calls h r) w)"
proof (cases "HandleSpecialized h")
  case None
  then show ?thesis
    by (simp add: processHandler_body_def specialized_calls_def emit_def)
next
  case (Some f)
  obtain fl isSpecial err where f: "f r = (fl, isSpecial, err)"
    by (cases "f r")
  with assms Some have "\<not> isSpecial" by (simp add: recognizes_def)
  with Some f show ?thesis
    by (cases err) (simp_all add: processHandler_body_def specialized_calls_def Let_def)
qed

lemma processHandler_body_recognized:
  assumes "HandleSpecialized h = Some f" and "f r = (fl, True, err)"
  shows "processHandler_body e h r skel w =
     handleChunks (FromFile h fl) skel
       (emit [EHandleSpecialized (hname h) r, EFromFile (hname h) fl] w)"
  using assms by (simp add: processHandler_body_def Let_def)

lemma processHandler_body_rejects:
  "\<not> accepts e h r \<Longrightarrow>
   processHandler_body e h r skel w = (Some False, emit (rejected_calls e h r) w)"
  by (auto simp: accepts_def processHandler_body_not_recognized processHandler_ordinary_def
      rejected_calls_def split: option.splits)

lemma processHandler_rejects:
  "\<not> accepts e h r \<Longrightarrow>
   processHandler e h r skel w =
     (Some False, emit (rejected_calls e h r @ [EStop r, EClose r]) w)"
  by (simp add: processHandler_def processHandler_body_rejects)

lemma processHandler_body_accepts:
  assumes "accepts e h r"
  shows "\<exists>es. processHandler_body e h r skel w = handleChunks (producer h r) skel (emit es w)"
proof (cases "recognizes h r")
  case True
  then obtain f where Some: "HandleSpecialized h = Some f"
    by (auto simp: recognizes_def split: option.splits)
  obtain fl isSpecial err where f: "f r = (fl, isSpecial, err)"
    by (cases "f r")
  with True Some have "isSpecial" by (simp add: recognizes_def)
  with Some f have "producer h r = FromFile h fl"
    by (simp add: producer_def fed_def)
  with processHandler_body_recognized[of h f r fl err e skel w] Some f \<open>isSpecial\<close>
  show ?thesis by auto
next
  case False
  with assms have ok: "Seek_error e r = None" "snd (IsFiletype h r)"
    by (simp_all add: accepts_def)
  from False have "producer h r = FromFile h r"
    by (auto simp: recognizes_def producer_def fed_def split: option.splits prod.splits)
  with False ok show ?thesis
    by (auto simp: processHandler_body_not_recognized processHandler_ordinary_def)
qed

lemma processHandler_wrap:
  "fst (processHandler e h r skel w) = fst (processHandler_body e h r skel w) \<and>
   same_channels (snd (processHandler e h r skel w)) (snd (processHandler_body e h r skel w))"
  by (cases "processHandler_body e h r skel w"; cases "fst (processHandler_body e h r skel w)")
     (auto simp: processHandler_def)

lemma processHandler_accepts:
  assumes "accepts e h r"
  shows "fst (processHandler e h r skel w) = fst (handleChunks (producer h r) skel w) \<and>
         same_channels (snd (processHandler e h r skel w)) (snd (handleChunks (producer h r) skel w))"
proof -
  from processHandler_body_accepts[OF assms] obtain es where
    body: "processHandler_body e h r skel w = handleChunks (producer h r) skel (emit es w)"
    by blast
  have "same_channels (emit es w) w" by simp
  from handleChunks_same_channels[OF this, of "producer h r" skel] body
    processHandler_wrap[of e h r skel w]
  show ?thesis
    by (auto intro: same_channels_trans)
qed

subsection \<open>The loop\<close>

text \<open>When no variant accepts, the call returns false and forwards nothing.\<close>

lemma HandleFile_loop_none_accepts:
  "\<forall>j<length hs. \<not> accepts e (hs ! j) (DiskBufferReader (i + j)) \<Longrightarrow>
   fst (HandleFile_loop e i hs skel w) = Some False \<and>
   same_channels (snd (HandleFile_loop e i hs skel w)) w"
proof (induction hs arbitrary: i w)
  case Nil
  then show ?case by simp
next
  case (Cons h hs)
  show ?case
  proof (cases "New_error e i")
    case (Some err)
    then show ?thesis by (simp add: diskbufferreader_New_def)
  next
    case None
    from Cons.prems have rej: "\<not> accepts e h (DiskBufferReader i)" by force
    from Cons.prems have "\<forall>j<length hs. \<not> accepts e (hs ! j) (DiskBufferReader (Suc i + j))"
      by force
    from Cons.IH[OF this] None rej show ?thesis
      by (simp add: diskbufferreader_New_def processHandler_rejects same_channels_def emit_def)
  qed
qed

text \<open>When one variant accepts, the call is the relay of that variant's producer.\<close>

lemma HandleFile_loop_selected:
  assumes "k < length hs"
    and "\<forall>j\<le>k. New_error e (i + j) = None"
    and "\<forall>j<length hs. j \<noteq> k \<longrightarrow> \<not> accepts e (hs ! j) (DiskBufferReader (i + j))"
    and "accepts e (hs ! k) (DiskBufferReader (i + k))"
  shows "fst (HandleFile_loop e i hs skel w) =
           fst (handleChunks (producer (hs ! k) (DiskBufferReader (i + k))) skel w) \<and>
         same_channels (snd (HandleFile_loop e i hs skel w))
           (snd (handleChunks (producer (hs ! k) (DiskBufferReader (i + k))) skel w))"
  using assms
proof (induction hs arbitrary: i k w)
  case Nil
  then show ?case by simp
next
  case (Cons h hs)
  from Cons.prems(2) have new: "New_error e i = None" by force
  let ?w1 = "emit [ENew (hname h), EConstruct RawFile] w"
  show ?case
  proof (cases k)
    case 0
    with Cons.prems have acc: "accepts e h (DiskBufferReader i)" by simp
    let ?ps = "producer h (DiskBufferReader i)"
    from processHandler_accepts[OF acc, of skel ?w1]
      handleChunks_same_channels[of ?w1 w ?ps skel]
    have ph: "fst (processHandler e h (DiskBufferReader i) skel ?w1) = fst (handleChunks ?ps skel w)"
      "same_channels (snd (processHandler e h (DiskBufferReader i) skel ?w1)) (snd (handleChunks ?ps skel w))"
      by (auto intro: same_channels_trans)
    from Cons.prems 0 have "\<forall>j<length hs. \<not> accepts e (hs ! j) (DiskBufferReader (Suc i + j))"
      by force
    note rest = HandleFile_loop_none_accepts[OF this, of skel]
    obtain res w2 where p: "processHandler e h (DiskBufferReader i) skel ?w1 = (res, w2)"
      by (cases "processHandler e h (DiskBufferReader i) skel ?w1")
    from p ph have r: "fst (handleChunks ?ps skel w) = res"
      and sc: "same_channels w2 (snd (handleChunks ?ps skel w))"
      by simp_all
    from p new have loop: "HandleFile_loop e i (h # hs) skel w =
        (case res of
           None \<Rightarrow> (None, w2)
         | Some success \<Rightarrow>
             if success then (Some True, w2) else HandleFile_loop e (Suc i) hs skel w2)"
      by (simp add: diskbufferreader_New_def)
    show ?thesis
    proof (cases res)
      case None
      with loop r sc 0 show ?thesis by simp
    next
      case (Some b)
      show ?thesis
      proof (cases b)
        case True
        with Some loop r sc 0 show ?thesis by simp
      next
        case False
        with Some loop have "HandleFile_loop e i (h # hs) skel w = HandleFile_loop e (Suc i) hs skel w2"
          by simp
        with rest[of w2] False Some r sc 0 show ?thesis
          by (auto intro: same_channels_trans)
      qed
    qed
  next
    case (Suc k')
    with Cons.prems have rej: "\<not> accepts e h (DiskBufferReader i)" by force
    from Cons.prems Suc have 1: "k' < length hs" by simp
    from Cons.prems(2) Suc have 2: "\<forall>j\<le>k'. New_error e (Suc i + j) = None" by force
    from Cons.prems(3) Suc have 3:
      "\<forall>j<length hs. j \<noteq> k' \<longrightarrow> \<not> accepts e (hs ! j) (DiskBufferReader (Suc i + j))"
      by force
    from Cons.prems(4) Suc have 4: "accepts e (hs ! k') (DiskBufferReader (Suc i + k'))" by simp
    let ?w2 = "emit (rejected_calls e h (DiskBufferReader i) @ [EStop (DiskBufferReader i), EClose (DiskBufferReader i)]) ?w1"
    let ?ps = "producer (hs ! k') (DiskBufferReader (Suc i + k'))"
    have sc: "same_channels ?w2 w" by (simp add: same_channels_def emit_def)
    from Cons.IH[OF 1 2 3 4, of ?w2] handleChunks_same_channels[OF sc, of ?ps skel]
    have "fst (HandleFile_loop e (Suc i) hs skel ?w2) = fst (handleChunks ?ps skel w)"
      "same_channels (snd (HandleFile_loop e (Suc i) hs skel ?w2)) (snd (handleChunks ?ps skel w))"
      by (auto intro: same_channels_trans simp del: emit_emit)
    with new rej Suc show ?thesis
      by (simp add: diskbufferreader_New_def processHandler_rejects del: emit_emit)
  qed
qed

subsection \<open>Cancellation\<close>

text \<open>
  C3, as stated, fails. The context is cancelled when one of two payloads has been
  forwarded; the producer and the consumer are ready all the same, and each select takes
  its channel operation, as a select may when several of its cases can proceed. The
  second payload is forwarded after the cancellation and the call returns true.
\<close>

theorem cancelled_context_still_forwards_counterexample:
  "cancelled_after 1 (ticks (world0 [ChanOp False, ChanOp False, ChanOp True, ChanOp True, ChanOp True])) \<and>
   1 < length [''a'', ''bc''] \<and>
   handleChunks [''a'', ''bc''] skel_t1
     (world0 [ChanOp False, ChanOp False, ChanOp True, ChanOp True, ChanOp True]) =
   (Some True,
    \<lparr>ticks = [],
     chunksChan = [\<lparr>Metadata = ''t1'', Data = ''a''\<rparr>, \<lparr>Metadata = ''t1'', Data = ''bc''\<rparr>],
     calls = []\<rparr>) \<and>
   HandleFile env_ok h_plain skel_t1
     (world0 [ChanOp False, ChanOp False, ChanOp True, ChanOp True, ChanOp True]) =
   (Some True,
    \<lparr>ticks = [],
     chunksChan = [\<lparr>Metadata = ''t1'', Data = ''a''\<rparr>, \<lparr>Metadata = ''t1'', Data = ''bc''\<rparr>],
     calls = [ENew ''plain'', EConstruct RawFile, ESeek (DiskBufferReader 0),
              EIsFiletype ''plain'' (DiskBufferReader 0), EFromFile ''plain'' (DiskBufferReader 0),
              EStop (DiskBufferReader 0), EClose (DiskBufferReader 0)]\<rparr>)"
  by (simp add: cancelled_after_def world0_def skel_t1_def env_ok_def h_plain_def
      HandleFile_def DefaultHandlers_def diskbufferreader_New_def processHandler_def
      processHandler_body_def processHandler_ordinary_def emit_def)

text \<open>
  C3, amended. In every run of the relay in which a select takes the cancellation case
  when m < N payloads have been forwarded, handleChunks returns false at that select:
  the output channel holds the first m chunks, in order, and no select after that one is
  made. The dispatch call of the registered handler, when that handler accepts the
  stream, returns false with the same output.
\<close>

theorem handleChunks_cancellation_taken:
  assumes "ticks w = pre @ CtxDone # rest"
    and "list_all is_ChanOp pre"
    and "length pre = 2 * m \<or> length pre = 2 * m + 1"
    and "m < length payloads"
  shows "handleChunks payloads chunkSkel w =
           (Some False,
            w\<lparr>ticks := rest,
              chunksChan := chunksChan w @ map (\<lambda>data. chunkSkel\<lparr>Data := data\<rparr>) (take m payloads)\<rparr>) \<and>
         (New_error e 0 = None \<and> accepts e archive (DiskBufferReader 0) \<and>
          producer archive (DiskBufferReader 0) = payloads \<longrightarrow>
            fst (HandleFile e archive chunkSkel w) = Some False \<and>
            ticks (snd (HandleFile e archive chunkSkel w)) = rest \<and>
            chunksChan (snd (HandleFile e archive chunkSkel w)) =
              chunksChan w @ map (\<lambda>data. chunkSkel\<lparr>Data := data\<rparr>) (take m payloads))"
proof -
  have "map (clone chunkSkel) (take m payloads) =
        map (\<lambda>data. chunkSkel\<lparr>Data := data\<rparr>) (take m payloads)"
    by (simp add: clone_def)
  with handleChunks_cancelled[OF assms, of chunkSkel]
  have relay: "handleChunks payloads chunkSkel w =
      (Some False,
       w\<lparr>ticks := rest,
         chunksChan := chunksChan w @ map (\<lambda>data. chunkSkel\<lparr>Data := data\<rparr>) (take m payloads)\<rparr>)"
    by simp
  {
    assume new: "New_error e 0 = None"
      and acc: "accepts e archive (DiskBufferReader 0)"
      and prod: "producer archive (DiskBufferReader 0) = payloads"
    have "fst (HandleFile_loop e 0 [archive] chunkSkel w) =
            fst (handleChunks (producer ([archive] ! 0) (DiskBufferReader (0 + 0))) chunkSkel w) \<and>
          same_channels (snd (HandleFile_loop e 0 [archive] chunkSkel w))
            (snd (handleChunks (producer ([archive] ! 0) (DiskBufferReader (0 + 0))) chunkSkel w))"
      using new acc by (intro HandleFile_loop_selected) simp_all
    with prod relay have "fst (HandleFile e archive chunkSkel w) = Some False \<and>
        ticks (snd (HandleFile e archive chunkSkel w)) = rest \<and>
        chunksChan (snd (HandleFile e archive chunkSkel w)) =
          chunksChan w @ map (\<lambda>data. chunkSkel\<lparr>Data := data\<rparr>) (take m payloads)"
      by (simp add: HandleFile_def DefaultHandlers_def same_channels_def)
  }
  with relay show ?thesis by blast
qed

theorem handleChunks_cancellation_taken_witness:
  "ticks (world0 [ChanOp False, ChanOp False, ChanOp True, CtxDone, ChanOp True]) =
     [ChanOp False, ChanOp False, ChanOp True] @ CtxDone # [ChanOp True] \<and>
   list_all is_ChanOp [ChanOp False, ChanOp False, ChanOp True] \<and>
   1 < length [''a'', ''bc''] \<and>
   New_error env_ok 0 = None \<and> accepts env_ok h_plain (DiskBufferReader 0) \<and>
   producer h_plain (DiskBufferReader 0) = [''a'', ''bc''] \<and>
   handleChunks [''a'', ''bc''] skel_t1
     (world0 [ChanOp False, ChanOp False, ChanOp True, CtxDone, ChanOp True]) =
   (Some False,
    \<lparr>ticks = [ChanOp True], chunksChan = [\<lparr>Metadata = ''t1'', Data = ''a''\<rparr>], calls = []\<rparr>) \<and>
   fst (HandleFile env_ok h_plain skel_t1
          (world0 [ChanOp False, ChanOp False, ChanOp True, CtxDone, ChanOp True])) = Some False \<and>
   chunksChan (snd (HandleFile env_ok h_plain skel_t1
          (world0 [ChanOp False, ChanOp False, ChanOp True, CtxDone, ChanOp True]))) =
     [\<lparr>Metadata = ''t1'', Data = ''a''\<rparr>]"
  using handleChunks_cancellation_taken
    [of "world0 [ChanOp False, ChanOp False, ChanOp True, CtxDone, ChanOp True]"
        "[ChanOp False, ChanOp False, ChanOp True]" "[ChanOp True]" 1 "[''a'', ''bc'']"
        skel_t1 env_ok h_plain]
  by (simp add: world0_def skel_t1_def env_ok_def h_plain_def accepts_def recognizes_def
      producer_def fed_def)

subsection \<open>Selection\<close>

text \<open>The attempts that are rejected come first: the loop goes on after them.\<close>

lemma HandleFile_loop_append_rejected:
  "\<forall>j<length xs. New_error e (i + j) = None \<and> \<not> accepts e (xs ! j) (DiskBufferReader (i + j)) \<Longrightarrow>
   HandleFile_loop e i (xs @ ys) skel w =
     HandleFile_loop e (i + length xs) ys skel (snd (HandleFile_loop e i xs skel w))"
proof (induction xs arbitrary: i w)
  case Nil
  then show ?case by simp
next
  case (Cons h xs)
  from Cons.prems have new: "New_error e i = None"
    and rej: "\<not> accepts e h (DiskBufferReader i)"
    by force+
  from Cons.prems have
    "\<forall>j<length xs. New_error e (Suc i + j) = None \<and> \<not> accepts e (xs ! j) (DiskBufferReader (Suc i + j))"
    by force
  from Cons.IH[OF this] new rej show ?case
    by (simp add: diskbufferreader_New_def processHandler_rejects)
qed

text \<open>
  C1. Of the registered variants only the k-th accepts the stream (by its specialized
  path or by its type check), and the re-readers of the attempts up to the k-th are
  constructed. Then the call does what the relay of the k-th variant's producer does: it
  returns its result and forwards its chunks. The loop reaches the k-th attempt with the
  output channel as it was: the variants before it have forwarded nothing. When the
  context is not cancelled, the output is every payload of the k-th variant, in order,
  and the call returns true.
\<close>

theorem HandleFile_selection_order:
  assumes "k < length hs"
    and "\<forall>j\<le>k. New_error e j = None"
    and "\<forall>j<length hs. j \<noteq> k \<longrightarrow> \<not> accepts e (hs ! j) (DiskBufferReader j)"
    and "accepts e (hs ! k) (DiskBufferReader k)"
  shows "fst (HandleFile_loop e 0 hs chunkSkel w) =
           fst (handleChunks (producer (hs ! k) (DiskBufferReader k)) chunkSkel w) \<and>
         chunksChan (snd (HandleFile_loop e 0 hs chunkSkel w)) =
           chunksChan (snd (handleChunks (producer (hs ! k) (DiskBufferReader k)) chunkSkel w)) \<and>
         HandleFile_loop e 0 hs chunkSkel w =
           HandleFile_loop e k (drop k hs) chunkSkel
             (snd (HandleFile_loop e 0 (take k hs) chunkSkel w)) \<and>
         chunksChan (snd (HandleFile_loop e 0 (take k hs) chunkSkel w)) = chunksChan w \<and>
         (list_all (\<lambda>t. \<not> cancelled_at t) (ticks w) \<and>
          2 * length (producer (hs ! k) (DiskBufferReader k)) + 1 \<le> length (ticks w) \<longrightarrow>
            fst (HandleFile_loop e 0 hs chunkSkel w) = Some True \<and>
            chunksChan (snd (HandleFile_loop e 0 hs chunkSkel w)) =
              chunksChan w @
              map (\<lambda>data. chunkSkel\<lparr>Data := data\<rparr>) (producer (hs ! k) (DiskBufferReader k)))"
proof -
  let ?ps = "producer (hs ! k) (DiskBufferReader k)"
  have sel: "fst (HandleFile_loop e 0 hs chunkSkel w) = fst (handleChunks ?ps chunkSkel w)"
    "same_channels (snd (HandleFile_loop e 0 hs chunkSkel w)) (snd (handleChunks ?ps chunkSkel w))"
    using HandleFile_loop_selected[of k hs e 0 chunkSkel w] assms by simp_all
  have before: "\<forall>j<length (take k hs).
      New_error e (0 + j) = None \<and> \<not> accepts e (take k hs ! j) (DiskBufferReader (0 + j))"
    using assms(1-3) by simp
  from HandleFile_loop_append_rejected[OF before, of "drop k hs" chunkSkel w] assms(1)
  have reach: "HandleFile_loop e 0 hs chunkSkel w =
      HandleFile_loop e k (drop k hs) chunkSkel (snd (HandleFile_loop e 0 (take k hs) chunkSkel w))"
    by (simp add: min_def)
  from before have "\<forall>j<length (take k hs). \<not> accepts e (take k hs ! j) (DiskBufferReader (0 + j))"
    by blast
  from HandleFile_loop_none_accepts[OF this, of chunkSkel w]
  have quiet: "chunksChan (snd (HandleFile_loop e 0 (take k hs) chunkSkel w)) = chunksChan w"
    by (simp add: same_channels_def)
  {
    assume nc: "list_all (\<lambda>t. \<not> cancelled_at t) (ticks w)"
      and len: "2 * length ?ps + 1 \<le> length (ticks w)"
    from handleChunks_never_cancelled[OF nc len, of chunkSkel] sel
    have "fst (HandleFile_loop e 0 hs chunkSkel w) = Some True \<and>
          chunksChan (snd (HandleFile_loop e 0 hs chunkSkel w)) =
            chunksChan w @ map (\<lambda>data. chunkSkel\<lparr>Data := data\<rparr>) ?ps"
      by (simp add: same_channels_def clone_def)
  }
  with sel reach quiet show ?thesis
    by (simp add: same_channels_def)
qed

theorem HandleFile_selection_order_witness:
  "accepts env_ok ([h_reject, h_plain, h_reject] ! 1) (DiskBufferReader 1) \<and>
   \<not> accepts env_ok ([h_reject, h_plain, h_reject] ! 0) (DiskBufferReader 0) \<and>
   \<not> accepts env_ok ([h_reject, h_plain, h_reject] ! 2) (DiskBufferReader 2) \<and>
   fst (HandleFile_loop env_ok 0 [h_reject, h_plain, h_reject] skel_t1
          (world0 [ChanOp False, ChanOp False, ChanOp False, ChanOp False, ChanOp False])) =
     Some True \<and>
   chunksChan (snd (HandleFile_loop env_ok 0 [h_reject, h_plain, h_reject] skel_t1
          (world0 [ChanOp False, ChanOp False, ChanOp False, ChanOp False, ChanOp False]))) =
     [\<lparr>Metadata = ''t1'', Data = ''a''\<rparr>, \<lparr>Metadata = ''t1'', Data = ''bc''\<rparr>] \<and>
   chunksChan (snd (HandleFile_loop env_ok 0 (take 1 [h_reject, h_plain, h_reject]) skel_t1
          (world0 [ChanOp False, ChanOp False, ChanOp False, ChanOp False, ChanOp False]))) = []"
proof -
  let ?hs = "[h_reject, h_plain, h_reject]"
  have rej: "\<not> accepts env_ok h_reject r" for r
    by (simp add: accepts_def recognizes_def h_reject_def)
  have 1: "(1::nat) < length ?hs" by simp
  have 2: "\<forall>j\<le>1. New_error env_ok j = None" by (simp add: env_ok_def)
  have 3: "\<forall>j<length ?hs. j \<noteq> 1 \<longrightarrow> \<not> accepts env_ok (?hs ! j) (DiskBufferReader j)"
    using rej by (auto simp: nth_Cons')
  have 4: "accepts env_ok (?hs ! 1) (DiskBufferReader 1)"
    by (simp add: accepts_def h_plain_def env_ok_def)
  have 5: "producer h_plain (DiskBufferReader 1) = [''a'', ''bc'']"
    by (simp add: producer_def fed_def h_plain_def)
  from HandleFile_selection_order[OF 1 2 3 4, of skel_t1
      "world0 [ChanOp False, ChanOp False, ChanOp False, ChanOp False, ChanOp False]"] 4 5 rej
  show ?thesis
    by (simp add: world0_def skel_t1_def env_ok_def h_reject_def h_plain_def
        diskbufferreader_New_def processHandler_def processHandler_body_def
        processHandler_ordinary_def emit_def accepts_def recognizes_def)
qed

subsection \<open>The calls of an attempt\<close>

lemma processHandler_body_calls:
  "calls (snd (processHandler_body e h r skel w)) = calls w @ body_calls e h r"
proof (cases "recognizes h r")
  case True
  then obtain f where Some: "HandleSpecialized h = Some f"
    by (auto simp: recognizes_def split: option.splits)
  obtain fl isSpecial err where f: "f r = (fl, isSpecial, err)"
    by (cases "f r")
  with True Some have "isSpecial" by (simp add: recognizes_def)
  with Some f have "fed h r = fl" by (simp add: fed_def)
  with processHandler_body_recognized[of h f r fl err e skel w] Some f \<open>isSpecial\<close> True
  show ?thesis
    by (simp add: handleChunks_calls body_calls_def emit_def)
next
  case False
  show ?thesis
  proof (cases "accepts e h r")
    case True
    with False have "Seek_error e r = None" "snd (IsFiletype h r)"
      by (simp_all add: accepts_def)
    with False True show ?thesis
      by (simp add: processHandler_body_not_recognized processHandler_ordinary_def
          handleChunks_calls body_calls_def emit_def)
  next
    case rej: False
    with False show ?thesis
      by (simp add: processHandler_body_rejects body_calls_def emit_def)
  qed
qed

lemma processHandler_calls:
  "new_calls w (snd (processHandler e h r skel w)) =
     body_calls e h r @
     (if fst (processHandler e h r skel w) = None then [] else [EStop r, EClose r])"
proof -
  obtain res w' where body: "processHandler_body e h r skel w = (res, w')"
    by (cases "processHandler_body e h r skel w")
  with processHandler_body_calls[of e h r skel w]
  have "calls w' = calls w @ body_calls e h r" by simp
  with body show ?thesis
    by (cases res) (simp_all add: processHandler_def new_calls_def emit_def)
qed

lemma processHandler_log_grows:
  "calls (snd (processHandler e h r skel w)) =
     calls w @ new_calls w (snd (processHandler e h r skel w))"
proof -
  obtain res w' where body: "processHandler_body e h r skel w = (res, w')"
    by (cases "processHandler_body e h r skel w")
  with processHandler_body_calls[of e h r skel w]
  have "calls w' = calls w @ body_calls e h r" by simp
  with body show ?thesis
    by (cases res) (simp_all add: processHandler_def new_calls_def emit_def)
qed

lemma specialized_calls_no_release: "\<not> list_ex is_release (specialized_calls h r)"
  by (simp add: specialized_calls_def split: option.splits)

lemma body_calls_no_release: "\<not> list_ex is_release (body_calls e h r)"
  using specialized_calls_no_release[of h r]
  by (simp add: body_calls_def rejected_calls_def split: option.splits)

lemma filter_no_release: "\<not> list_ex is_release evs \<Longrightarrow> filter is_release evs = []"
  by (induction evs) auto

text \<open>
  C4. When the construction of the re-reader fails in an attempt, whatever the state
  the earlier attempts have left, the loop returns false at once: it has reset the
  variant, called the constructor and logged the error, and that is all. No method of
  this variant or of a later one is called, no select is made and nothing is sent on
  the output channel. For the call on the registered handler, where the failing attempt
  is the first one, nothing is forwarded in the whole call.
\<close>

theorem construction_failure_aborts:
  assumes "New_error e i = Some err"
  shows "HandleFile_loop e i (h # hs) chunkSkel w =
           (Some False,
            w\<lparr>calls := calls w @ [ENew (hname h), EConstruct RawFile,
                                  ELogError err ''error creating reusable reader'']\<rparr>) \<and>
         (i = 0 \<longrightarrow>
            HandleFile e h chunkSkel w =
              (Some False,
               w\<lparr>calls := calls w @ [ENew (hname h), EConstruct RawFile,
                                     ELogError err ''error creating reusable reader'']\<rparr>))"
  using assms
  by (auto simp: diskbufferreader_New_def emit_def HandleFile_def DefaultHandlers_def)

theorem construction_failure_aborts_witness:
  "New_error env_new_fails 0 = Some ''no space left'' \<and>
   HandleFile_loop env_new_fails 0 [h_plain, h_special] skel_t1 (world0 [ChanOp False, ChanOp False]) =
     (Some False,
      \<lparr>ticks = [ChanOp False, ChanOp False], chunksChan = [],
       calls = [ENew ''plain'', EConstruct RawFile,
                ELogError ''no space left'' ''error creating reusable reader'']\<rparr>) \<and>
   HandleFile env_new_fails h_plain skel_t1 (world0 [ChanOp False, ChanOp False]) =
     (Some False,
      \<lparr>ticks = [ChanOp False, ChanOp False], chunksChan = [],
       calls = [ENew ''plain'', EConstruct RawFile,
                ELogError ''no space left'' ''error creating reusable reader'']\<rparr>)"
  using construction_failure_aborts
    [of env_new_fails 0 "''no space left''" h_plain "[h_special]" skel_t1
        "world0 [ChanOp False, ChanOp False]"]
  by (simp add: env_new_fails_def h_plain_def world0_def)

text \<open>
  C7. When the seek back to the start fails in an attempt whose specialized step has not
  recognized the stream, processHandler logs the error, releases the re-reader and
  returns false, with nothing sent; the loop goes on with the next variant, from that
  state.
\<close>

theorem seek_failure_moves_on:
  assumes "New_error e i = None"
    and "\<not> recognizes h (DiskBufferReader i)"
    and "Seek_error e (DiskBufferReader i) = Some err"
  shows "processHandler e h (DiskBufferReader i) chunkSkel w =
           (Some False,
            w\<lparr>calls := calls w @ specialized_calls h (DiskBufferReader i) @
                 [ESeek (DiskBufferReader i), ELogError err ''error seeking to start of file'',
                  EStop (DiskBufferReader i), EClose (DiskBufferReader i)]\<rparr>) \<and>
         HandleFile_loop e i (h # hs) chunkSkel w =
           HandleFile_loop e (Suc i) hs chunkSkel
             (w\<lparr>calls := calls w @ [ENew (hname h), EConstruct RawFile] @
                  specialized_calls h (DiskBufferReader i) @
                  [ESeek (DiskBufferReader i), ELogError err ''error seeking to start of file'',
                   EStop (DiskBufferReader i), EClose (DiskBufferReader i)]\<rparr>)"
proof -
  from assms(2,3) have "\<not> accepts e h (DiskBufferReader i)"
    by (simp add: accepts_def)
  note rejects = processHandler_rejects[OF this]
  let ?w1 = "emit [ENew (hname h), EConstruct RawFile] w"
  from rejects[of chunkSkel w] assms(3)
  have attempt: "processHandler e h (DiskBufferReader i) chunkSkel w =
      (Some False,
       w\<lparr>calls := calls w @ specialized_calls h (DiskBufferReader i) @
            [ESeek (DiskBufferReader i), ELogError err ''error seeking to start of file'',
             EStop (DiskBufferReader i), EClose (DiskBufferReader i)]\<rparr>)"
    by (simp add: rejected_calls_def emit_def)
  from rejects[of chunkSkel ?w1] assms(1,3)
  have "HandleFile_loop e i (h # hs) chunkSkel w =
      HandleFile_loop e (Suc i) hs chunkSkel
        (w\<lparr>calls := calls w @ [ENew (hname h), EConstruct RawFile] @
             specialized_calls h (DiskBufferReader i) @
             [ESeek (DiskBufferReader i), ELogError err ''error seeking to start of file'',
              EStop (DiskBufferReader i), EClose (DiskBufferReader i)]\<rparr>)"
    by (simp add: rejected_calls_def diskbufferreader_New_def emit_def)
  with attempt show ?thesis by blast
qed

theorem seek_failure_moves_on_witness:
  "New_error env_seek_fails 0 = None \<and>
   \<not> recognizes h_special_error (DiskBufferReader 0) \<and>
   Seek_error env_seek_fails (DiskBufferReader 0) = Some ''seek failed'' \<and>
   processHandler env_seek_fails h_special_error (DiskBufferReader 0) skel_t1
     (world0 [ChanOp False, ChanOp False, ChanOp False]) =
     (Some False,
      \<lparr>ticks = [ChanOp False, ChanOp False, ChanOp False], chunksChan = [],
       calls = [EHandleSpecialized ''broken'' (DiskBufferReader 0),
                ELogError ''not an archive'' ''error handling file'',
                ESeek (DiskBufferReader 0),
                ELogError ''seek failed'' ''error seeking to start of file'',
                EStop (DiskBufferReader 0), EClose (DiskBufferReader 0)]\<rparr>) \<and>
   HandleFile_loop env_seek_fails 0 [h_special_error, h_special_error] skel_t1
     (world0 [ChanOp False, ChanOp False, ChanOp False]) =
     (Some True,
      \<lparr>ticks = [], chunksChan = [\<lparr>Metadata = ''t1'', Data = ''x''\<rparr>],
       calls = [ENew ''broken'', EConstruct RawFile,
                EHandleSpecialized ''broken'' (DiskBufferReader 0),
                ELogError ''not an archive'' ''error handling file'',
                ESeek (DiskBufferReader 0),
                ELogError ''seek failed'' ''error seeking to start of file'',
                EStop (DiskBufferReader 0), EClose (DiskBufferReader 0),
                ENew ''broken'', EConstruct RawFile,
                EHandleSpecialized ''broken'' (DiskBufferReader 1),
                ELogError ''not an archive'' ''error handling file'',
                ESeek (DiskBufferReader 1), EIsFiletype ''broken'' (DiskBufferReader 1),
                EFromFile ''broken'' (DiskBufferReader 1),
                EStop (DiskBufferReader 1), EClose (DiskBufferReader 1)]\<rparr>)"
  using seek_failure_moves_on
    [of env_seek_fails 0 h_special_error "''seek failed''" skel_t1
        "world0 [ChanOp False, ChanOp False, ChanOp False]" "[h_special_error]"]
  by (simp add: env_seek_fails_def h_special_error_def world0_def skel_t1_def recognizes_def
      specialized_calls_def diskbufferreader_New_def processHandler_def processHandler_body_def
      processHandler_ordinary_def emit_def)

lemma handleChunks_concludes:
  "2 * length ps + 1 \<le> length (ticks w) \<Longrightarrow> fst (handleChunks ps skel w) \<noteq> None"
proof (induction ps arbitrary: w)
  case Nil
  then show ?case
    by (cases "ticks w") (auto split: select.splits)
next
  case (Cons d ps)
  then obtain a b ts where ts: "ticks w = a # b # ts"
    by (cases "ticks w"; cases "tl (ticks w)") auto
  let ?w = "w\<lparr>ticks := ts, chunksChan := chunksChan w @ [skel\<lparr>Data := d\<rparr>]\<rparr>"
  from Cons.prems ts have "2 * length ps + 1 \<le> length (ticks ?w)" by simp
  from Cons.IH[OF this] ts show ?case
    by (cases a; cases b) simp_all
qed

text \<open>
  An attempt concludes when the selects of its relay all stop waiting; an attempt that
  does not accept the stream has no relay and always concludes.
\<close>

lemma processHandler_concludes:
  assumes "2 * length (producer h r) + 1 \<le> length (ticks w)"
  shows "fst (processHandler e h r skel w) \<noteq> None"
proof (cases "accepts e h r")
  case True
  from processHandler_accepts[OF True, of skel w] handleChunks_concludes[OF assms, of skel]
  show ?thesis by simp
next
  case False
  from processHandler_rejects[OF False, of skel w] show ?thesis by simp
qed

text \<open>
  C8. processHandler returns exactly when its body does, with the same result, and the
  body makes no call that releases the re-reader. When the body returns, on whichever
  of its paths (the relay after a specialized step that recognizes the stream, the
  failed seek, the rejecting type check, the relay after an accepting type check, each
  relay ending with the closed channel or with the cancellation), the calls of the
  attempt are those of the body followed by \<^verbatim>\<open>Stop\<close>, then \<^verbatim>\<open>Close\<close>, on the re-reader of
  the attempt, and these two are the only release calls. An attempt that does not accept
  always returns; one that accepts returns when its relay does, which it does as soon
  as the selects of the relay all stop waiting.
\<close>

theorem processHandler_releases_once:
  "fst (processHandler e h reReader chunkSkel w) =
     fst (processHandler_body e h reReader chunkSkel w) \<and>
   (\<not> accepts e h reReader \<longrightarrow> fst (processHandler e h reReader chunkSkel w) = Some False) \<and>
   (accepts e h reReader \<longrightarrow>
      fst (processHandler e h reReader chunkSkel w) =
        fst (handleChunks (producer h reReader) chunkSkel w)) \<and>
   (2 * length (producer h reReader) + 1 \<le> length (ticks w) \<longrightarrow>
      fst (processHandler e h reReader chunkSkel w) \<noteq> None) \<and>
   calls (snd (processHandler e h reReader chunkSkel w)) =
     calls w @ new_calls w (snd (processHandler e h reReader chunkSkel w)) \<and>
   new_calls w (snd (processHandler e h reReader chunkSkel w)) =
     body_calls e h reReader @
     (if fst (processHandler_body e h reReader chunkSkel w) = None then []
      else [EStop reReader, EClose reReader]) \<and>
   filter is_release (body_calls e h reReader) = [] \<and>
   filter is_release (new_calls w (snd (processHandler e h reReader chunkSkel w))) =
     (if fst (processHandler_body e h reReader chunkSkel w) = None then []
      else [EStop reReader, EClose reReader])"
proof -
  let ?p = "processHandler e h reReader chunkSkel w"
  let ?b = "processHandler_body e h reReader chunkSkel w"
  have res: "fst ?p = fst ?b"
    using processHandler_wrap[of e h reReader chunkSkel w] by simp
  have rej: "\<not> accepts e h reReader \<longrightarrow> fst ?p = Some False"
    using processHandler_rejects[of e h reReader chunkSkel w] by simp
  have acc: "accepts e h reReader \<longrightarrow>
      fst ?p = fst (handleChunks (producer h reReader) chunkSkel w)"
    using processHandler_accepts[of e h reReader chunkSkel w] by simp
  have conc: "2 * length (producer h reReader) + 1 \<le> length (ticks w) \<longrightarrow> fst ?p \<noteq> None"
    using processHandler_concludes[of h reReader w e chunkSkel] by simp
  have grows: "calls (snd ?p) = calls w @ new_calls w (snd ?p)"
    by (rule processHandler_log_grows)
  from processHandler_calls[of w e h reReader chunkSkel] res
  have all: "new_calls w (snd ?p) =
      body_calls e h reReader @
      (if fst ?b = None then [] else [EStop reReader, EClose reReader])"
    by simp
  have none: "filter is_release (body_calls e h reReader) = []"
    by (rule filter_no_release) (rule body_calls_no_release)
  with all have rel: "filter is_release (new_calls w (snd ?p)) =
      (if fst ?b = None then [] else [EStop reReader, EClose reReader])"
    by simp
  from res rej acc conc grows all none rel show ?thesis by blast
qed

theorem processHandler_releases_once_witness:
  "processHandler env_ok h_special (DiskBufferReader 0) skel_t1
     (world0 [ChanOp False, ChanOp False, ChanOp False]) =
     (Some True,
      \<lparr>ticks = [], chunksChan = [\<lparr>Metadata = ''t1'', Data = ''deb''\<rparr>],
       calls = [EHandleSpecialized ''special'' (DiskBufferReader 0),
                EFromFile ''special'' (Wrapped 3),
                EStop (DiskBufferReader 0), EClose (DiskBufferReader 0)]\<rparr>) \<and>
   processHandler env_seek_fails h_special_error (DiskBufferReader 0) skel_t1 (world0 []) =
     (Some False,
      \<lparr>ticks = [], chunksChan = [],
       calls = [EHandleSpecialized ''broken'' (DiskBufferReader 0),
                ELogError ''not an archive'' ''error handling file'',
                ESeek (DiskBufferReader 0),
                ELogError ''seek failed'' ''error seeking to start of file'',
                EStop (DiskBufferReader 0), EClose (DiskBufferReader 0)]\<rparr>) \<and>
   processHandler env_ok h_reject (DiskBufferReader 0) skel_t1 (world0 []) =
     (Some False,
      \<lparr>ticks = [], chunksChan = [],
       calls = [EHandleSpecialized ''reject'' (DiskBufferReader 0),
                ESeek (DiskBufferReader 0), EIsFiletype ''reject'' (DiskBufferReader 0),
                EStop (DiskBufferReader 0), EClose (DiskBufferReader 0)]\<rparr>) \<and>
   processHandler env_ok h_plain (DiskBufferReader 0) skel_t1
     (world0 [ChanOp False, ChanOp False, ChanOp False, ChanOp False, ChanOp False]) =
     (Some True,
      \<lparr>ticks = [],
       chunksChan = [\<lparr>Metadata = ''t1'', Data = ''a''\<rparr>, \<lparr>Metadata = ''t1'', Data = ''bc''\<rparr>],
       calls = [ESeek (DiskBufferReader 0), EIsFiletype ''plain'' (DiskBufferReader 0),
                EFromFile ''plain'' (DiskBufferReader 0),
                EStop (DiskBufferReader 0), EClose (DiskBufferReader 0)]\<rparr>) \<and>
   processHandler env_ok h_plain (DiskBufferReader 0) skel_t1 (world0 [ChanOp False, CtxDone]) =
     (Some False,
      \<lparr>ticks = [], chunksChan = [],
       calls = [ESeek (DiskBufferReader 0), EIsFiletype ''plain'' (DiskBufferReader 0),
                EFromFile ''plain'' (DiskBufferReader 0),
                EStop (DiskBufferReader 0), EClose (DiskBufferReader 0)]\<rparr>) \<and>
   accepts env_ok h_plain (DiskBufferReader 0) \<and>
   \<not> accepts env_ok h_reject (DiskBufferReader 0) \<and>
   2 * length (producer h_plain (DiskBufferReader 0)) + 1 \<le>
     length (ticks (world0 [ChanOp False, ChanOp False, ChanOp False, ChanOp False, ChanOp False])) \<and>
   filter is_release (new_calls
       (world0 [ChanOp False, ChanOp False, ChanOp False, ChanOp False, ChanOp False])
       (snd (processHandler env_ok h_plain (DiskBufferReader 0) skel_t1
          (world0 [ChanOp False, ChanOp False, ChanOp False, ChanOp False, ChanOp False])))) =
     [EStop (DiskBufferReader 0), EClose (DiskBufferReader 0)]"
  using processHandler_releases_once
    [of env_ok h_special "DiskBufferReader 0" skel_t1
        "world0 [ChanOp False, ChanOp False, ChanOp False]"]
    processHandler_releases_once
    [of env_seek_fails h_special_error "DiskBufferReader 0" skel_t1 "world0 []"]
    processHandler_releases_once
    [of env_ok h_reject "DiskBufferReader 0" skel_t1 "world0 []"]
    processHandler_releases_once
    [of env_ok h_plain "DiskBufferReader 0" skel_t1
        "world0 [ChanOp False, ChanOp False, ChanOp False, ChanOp False, ChanOp False]"]
    processHandler_releases_once
    [of env_ok h_plain "DiskBufferReader 0" skel_t1 "world0 [ChanOp False, CtxDone]"]
  by (simp add: env_ok_def env_seek_fails_def h_plain_def h_special_def h_special_error_def
      h_reject_def world0_def skel_t1_def processHandler_def processHandler_body_def
      processHandler_ordinary_def emit_def new_calls_def accepts_def recognizes_def
      producer_def fed_def)

text \<open>
  C5. When the variant's HandleSpecialized recognizes the stream, the attempt calls
  HandleSpecialized on the re-reader and FromFile on the reader that HandleSpecialized
  has returned, and then releases the re-reader: IsFiletype is not called, on any
  reader. The result and the chunks of the attempt are those of the relay over the
  channel that FromFile makes of the returned reader.
\<close>

theorem specialized_precedence:
  assumes "HandleSpecialized h = Some handleSpecialized"
    and "handleSpecialized r = (fl, True, err)"
  shows "fst (processHandler e h r chunkSkel w) = fst (handleChunks (FromFile h fl) chunkSkel w) \<and>
         chunksChan (snd (processHandler e h r chunkSkel w)) =
           chunksChan (snd (handleChunks (FromFile h fl) chunkSkel w)) \<and>
         calls (snd (processHandler e h r chunkSkel w)) =
           calls w @ [EHandleSpecialized (hname h) r, EFromFile (hname h) fl] @
           (if fst (processHandler e h r chunkSkel w) = None then [] else [EStop r, EClose r]) \<and>
         (\<forall>name r'. EIsFiletype name r' \<notin> set (new_calls w (snd (processHandler e h r chunkSkel w))))"
proof -
  from assms have rec: "recognizes h r" and fed: "fed h r = fl"
    by (simp_all add: recognizes_def fed_def)
  then have acc: "accepts e h r" by (simp add: accepts_def)
  from processHandler_accepts[OF acc, of chunkSkel w] fed
  have relay: "fst (processHandler e h r chunkSkel w) = fst (handleChunks (FromFile h fl) chunkSkel w)"
    "chunksChan (snd (processHandler e h r chunkSkel w)) =
       chunksChan (snd (handleChunks (FromFile h fl) chunkSkel w))"
    by (simp_all add: producer_def same_channels_def)
  from processHandler_calls[of w e h r chunkSkel] rec fed
  have log: "new_calls w (snd (processHandler e h r chunkSkel w)) =
      [EHandleSpecialized (hname h) r, EFromFile (hname h) fl] @
      (if fst (processHandler e h r chunkSkel w) = None then [] else [EStop r, EClose r])"
    by (simp add: body_calls_def)
  then have none: "\<forall>name r'. EIsFiletype name r' \<notin> set (new_calls w (snd (processHandler e h r chunkSkel w)))"
    by simp
  from log processHandler_log_grows[of e h r chunkSkel w]
  have "calls (snd (processHandler e h r chunkSkel w)) =
      calls w @ [EHandleSpecialized (hname h) r, EFromFile (hname h) fl] @
      (if fst (processHandler e h r chunkSkel w) = None then [] else [EStop r, EClose r])"
    by simp
  with relay none show ?thesis by blast
qed

theorem specialized_precedence_witness:
  "HandleSpecialized h_special = Some (\<lambda>r. (Wrapped 3, True, Some ''trailing garbage'')) \<and>
   processHandler env_ok h_special (DiskBufferReader 0) skel_t1
     (world0 [ChanOp False, ChanOp False, ChanOp False]) =
     (Some True,
      \<lparr>ticks = [], chunksChan = [\<lparr>Metadata = ''t1'', Data = ''deb''\<rparr>],
       calls = [EHandleSpecialized ''special'' (DiskBufferReader 0),
                EFromFile ''special'' (Wrapped 3),
                EStop (DiskBufferReader 0), EClose (DiskBufferReader 0)]\<rparr>) \<and>
   new_calls (world0 [ChanOp False, ChanOp False, ChanOp False])
     (snd (processHandler env_ok h_special (DiskBufferReader 0) skel_t1
        (world0 [ChanOp False, ChanOp False, ChanOp False]))) =
     [EHandleSpecialized ''special'' (DiskBufferReader 0), EFromFile ''special'' (Wrapped 3),
      EStop (DiskBufferReader 0), EClose (DiskBufferReader 0)]"
  using specialized_precedence
    [of h_special "\<lambda>r. (Wrapped 3, True, Some ''trailing garbage'')" "DiskBufferReader 0"
        "Wrapped 3" "Some ''trailing garbage''" env_ok skel_t1
        "world0 [ChanOp False, ChanOp False, ChanOp False]"]
  by (simp add: env_ok_def h_special_def world0_def skel_t1_def processHandler_def
      processHandler_body_def emit_def new_calls_def)

text \<open>
  C10. On the ordinary path (the stream is not recognized by a specialized step, the
  seek succeeds) with a type check that accepts, the attempt calls IsFiletype and then
  FromFile on the re-reader itself, whatever reader IsFiletype has returned, and its
  result and chunks are those of the relay over the channel that FromFile makes of the
  re-reader.
\<close>

theorem IsFiletype_reader_discarded:
  assumes "\<not> recognizes h r"
    and "Seek_error e r = None"
    and "IsFiletype h r = (r', True)"
  shows "fst (processHandler e h r chunkSkel w) = fst (handleChunks (FromFile h r) chunkSkel w) \<and>
         chunksChan (snd (processHandler e h r chunkSkel w)) =
           chunksChan (snd (handleChunks (FromFile h r) chunkSkel w)) \<and>
         calls (snd (processHandler e h r chunkSkel w)) =
           calls w @ specialized_calls h r @
           [ESeek r, EIsFiletype (hname h) r, EFromFile (hname h) r] @
           (if fst (processHandler e h r chunkSkel w) = None then [] else [EStop r, EClose r])"
proof -
  from assms have acc: "accepts e h r" by (simp add: accepts_def)
  from assms(1) have fed: "fed h r = r"
    by (auto simp: recognizes_def fed_def split: option.splits prod.splits)
  from processHandler_accepts[OF acc, of chunkSkel w] fed
  have relay: "fst (processHandler e h r chunkSkel w) = fst (handleChunks (FromFile h r) chunkSkel w)"
    "chunksChan (snd (processHandler e h r chunkSkel w)) =
       chunksChan (snd (handleChunks (FromFile h r) chunkSkel w))"
    by (simp_all add: producer_def same_channels_def)
  from processHandler_calls[of w e h r chunkSkel] assms(1) acc
  have "new_calls w (snd (processHandler e h r chunkSkel w)) =
      specialized_calls h r @ [ESeek r, EIsFiletype (hname h) r, EFromFile (hname h) r] @
      (if fst (processHandler e h r chunkSkel w) = None then [] else [EStop r, EClose r])"
    by (simp add: body_calls_def)
  with processHandler_log_grows[of e h r chunkSkel w]
  have "calls (snd (processHandler e h r chunkSkel w)) =
      calls w @ specialized_calls h r @
      [ESeek r, EIsFiletype (hname h) r, EFromFile (hname h) r] @
      (if fst (processHandler e h r chunkSkel w) = None then [] else [EStop r, EClose r])"
    by simp
  with relay show ?thesis by blast
qed

theorem IsFiletype_reader_discarded_witness:
  "\<not> recognizes h_plain (DiskBufferReader 0) \<and>
   IsFiletype h_plain (DiskBufferReader 0) = (Wrapped 7, True) \<and>
   FromFile h_plain (Wrapped 7) = [''zz''] \<and>
   processHandler env_ok h_plain (DiskBufferReader 0) skel_t1
     (world0 [ChanOp False, ChanOp False, ChanOp False, ChanOp False, ChanOp False]) =
     (Some True,
      \<lparr>ticks = [],
       chunksChan = [\<lparr>Metadata = ''t1'', Data = ''a''\<rparr>, \<lparr>Metadata = ''t1'', Data = ''bc''\<rparr>],
       calls = [ESeek (DiskBufferReader 0), EIsFiletype ''plain'' (DiskBufferReader 0),
                EFromFile ''plain'' (DiskBufferReader 0),
                EStop (DiskBufferReader 0), EClose (DiskBufferReader 0)]\<rparr>)"
  using IsFiletype_reader_discarded
    [of h_plain "DiskBufferReader 0" env_ok "Wrapped 7" skel_t1
        "world0 [ChanOp False, ChanOp False, ChanOp False, ChanOp False, ChanOp False]"]
  by (simp add: env_ok_def h_plain_def world0_def skel_t1_def recognizes_def processHandler_def
      processHandler_body_def processHandler_ordinary_def emit_def)

subsection \<open>Errors of the specialized step\<close>

lemma body_calls_not_recognized:
  assumes "\<not> recognizes h r"
  shows "\<exists>rest. body_calls e h r = specialized_calls h r @ ESeek r # rest \<and>
           (Seek_error e r = None \<longrightarrow> rest \<noteq> [] \<and> hd rest = EIsFiletype (hname h) r)"
  using assms by (cases "Seek_error e r") (auto simp: body_calls_def rejected_calls_def)

text \<open>
  C6. An error of HandleSpecialized does not end the attempt. With the stream
  recognized, the attempt is the one of the same variant returning no error: the
  producer is given the returned reader and the relay runs. With the stream not
  recognized, the error is logged, and the result, the chunks and the other calls of the
  attempt are those of the same variant returning no error: after the log entry comes
  the seek on the same re-reader, and when the seek succeeds, IsFiletype on it.
\<close>

theorem specialized_errors_do_not_abort:
  assumes "HandleSpecialized h = Some handleSpecialized"
  shows "(handleSpecialized r = (fl, True, Some er) \<longrightarrow>
            processHandler e h r chunkSkel w =
              processHandler e (h\<lparr>HandleSpecialized := Some (\<lambda>_. (fl, True, None))\<rparr>) r chunkSkel w \<and>
            fst (processHandler e h r chunkSkel w) =
              fst (handleChunks (FromFile h fl) chunkSkel w) \<and>
            chunksChan (snd (processHandler e h r chunkSkel w)) =
              chunksChan (snd (handleChunks (FromFile h fl) chunkSkel w))) \<and>
         (handleSpecialized r = (fl, False, Some er) \<longrightarrow>
            fst (processHandler e h r chunkSkel w) =
              fst (processHandler e (h\<lparr>HandleSpecialized := Some (\<lambda>_. (fl, False, None))\<rparr>) r chunkSkel w) \<and>
            chunksChan (snd (processHandler e h r chunkSkel w)) =
              chunksChan (snd (processHandler e
                (h\<lparr>HandleSpecialized := Some (\<lambda>_. (fl, False, None))\<rparr>) r chunkSkel w)) \<and>
            new_calls w (snd (processHandler e h r chunkSkel w)) =
              EHandleSpecialized (hname h) r # ELogError er ''error handling file'' #
              tl (new_calls w (snd (processHandler e
                (h\<lparr>HandleSpecialized := Some (\<lambda>_. (fl, False, None))\<rparr>) r chunkSkel w))) \<and>
            take 3 (new_calls w (snd (processHandler e h r chunkSkel w))) =
              [EHandleSpecialized (hname h) r, ELogError er ''error handling file'', ESeek r] \<and>
            (Seek_error e r = None \<longrightarrow>
               new_calls w (snd (processHandler e h r chunkSkel w)) ! 3 = EIsFiletype (hname h) r))"
proof -
  let ?p = "processHandler e h r chunkSkel w"
  {
    assume f: "handleSpecialized r = (fl, True, Some er)"
    let ?h0 = "h\<lparr>HandleSpecialized := Some (\<lambda>_. (fl, True, None))\<rparr>"
    have "processHandler_body e h r chunkSkel w = processHandler_body e ?h0 r chunkSkel w"
      using processHandler_body_recognized[OF assms f, of e chunkSkel w]
        processHandler_body_recognized[of ?h0 "\<lambda>_. (fl, True, None)" r fl None e chunkSkel w]
      by simp
    then have same: "?p = processHandler e ?h0 r chunkSkel w"
      by (simp add: processHandler_def)
    from assms f have acc: "accepts e h r" and fed: "fed h r = fl"
      by (simp_all add: accepts_def recognizes_def fed_def)
    from processHandler_accepts[OF acc, of chunkSkel w] fed
    have "fst ?p = fst (handleChunks (FromFile h fl) chunkSkel w)"
      and "chunksChan (snd ?p) = chunksChan (snd (handleChunks (FromFile h fl) chunkSkel w))"
      by (simp_all add: producer_def same_channels_def)
    with same have "?p = processHandler e ?h0 r chunkSkel w \<and>
        fst ?p = fst (handleChunks (FromFile h fl) chunkSkel w) \<and>
        chunksChan (snd ?p) = chunksChan (snd (handleChunks (FromFile h fl) chunkSkel w))"
      by blast
  }
  note recognized = this
  {
    assume f: "handleSpecialized r = (fl, False, Some er)"
    let ?h0 = "h\<lparr>HandleSpecialized := Some (\<lambda>_. (fl, False, None))\<rparr>"
    let ?q = "processHandler e ?h0 r chunkSkel w"
    from assms f have nr: "\<not> recognizes h r" and nr0: "\<not> recognizes ?h0 r"
      by (simp_all add: recognizes_def)
    from assms f have sc: "specialized_calls h r =
        [EHandleSpecialized (hname h) r, ELogError er ''error handling file'']"
      and sc0: "specialized_calls ?h0 r = [EHandleSpecialized (hname h) r]"
      by (simp_all add: specialized_calls_def)
    have rej: "rejected_calls e h r = EHandleSpecialized (hname h) r #
        ELogError er ''error handling file'' # tl (rejected_calls e ?h0 r)"
      using sc sc0 by (cases "Seek_error e r") (simp_all add: rejected_calls_def)
    have body: "body_calls e h r = EHandleSpecialized (hname h) r #
        ELogError er ''error handling file'' # tl (body_calls e ?h0 r)"
      using nr nr0 sc sc0 rej by (simp add: body_calls_def accepts_def)
    have res: "fst ?p = fst ?q \<and> same_channels (snd ?p) (snd ?q)"
    proof (cases "accepts e h r")
      case True
      with nr nr0 have acc0: "accepts e ?h0 r" by (simp add: accepts_def)
      from nr nr0 have "producer ?h0 r = producer h r"
        by (auto simp: producer_def fed_def recognizes_def split: option.splits prod.splits)
      with processHandler_accepts[OF True, of chunkSkel w]
        processHandler_accepts[OF acc0, of chunkSkel w]
      show ?thesis by (simp add: same_channels_def)
    next
      case False
      with nr nr0 have rej0: "\<not> accepts e ?h0 r" by (simp add: accepts_def)
      from processHandler_rejects[OF False, of chunkSkel w]
        processHandler_rejects[OF rej0, of chunkSkel w]
      show ?thesis by (simp add: same_channels_def emit_def)
    qed
    from body_calls_not_recognized[OF nr0, of e] sc0 obtain rest where
      b0: "body_calls e ?h0 r = EHandleSpecialized (hname h) r # ESeek r # rest"
      and isft: "Seek_error e r = None \<longrightarrow> rest \<noteq> [] \<and> hd rest = EIsFiletype (hname h) r"
      by auto
    from processHandler_calls[of w e h r chunkSkel] processHandler_calls[of w e ?h0 r chunkSkel]
      res body b0
    have log: "new_calls w (snd ?p) = EHandleSpecialized (hname h) r #
        ELogError er ''error handling file'' # tl (new_calls w (snd ?q))"
      by simp
    from processHandler_calls[of w e h r chunkSkel] body b0
    have calls: "new_calls w (snd ?p) = EHandleSpecialized (hname h) r #
        ELogError er ''error handling file'' # ESeek r # rest @
        (if fst ?p = None then [] else [EStop r, EClose r])"
      by simp
    then have first: "take 3 (new_calls w (snd ?p)) =
        [EHandleSpecialized (hname h) r, ELogError er ''error handling file'', ESeek r]"
      by simp
    have check: "Seek_error e r = None \<longrightarrow> new_calls w (snd ?p) ! 3 = EIsFiletype (hname h) r"
    proof
      assume "Seek_error e r = None"
      with isft obtain x rest' where "rest = x # rest'" "x = EIsFiletype (hname h) r"
        by (cases rest) auto
      with calls show "new_calls w (snd ?p) ! 3 = EIsFiletype (hname h) r"
        by (simp add: numeral_3_eq_3)
    qed
    from res log first check have "fst ?p = fst ?q \<and>
        chunksChan (snd ?p) = chunksChan (snd ?q) \<and>
        new_calls w (snd ?p) = EHandleSpecialized (hname h) r #
          ELogError er ''error handling file'' # tl (new_calls w (snd ?q)) \<and>
        take 3 (new_calls w (snd ?p)) =
          [EHandleSpecialized (hname h) r, ELogError er ''error handling file'', ESeek r] \<and>
        (Seek_error e r = None \<longrightarrow> new_calls w (snd ?p) ! 3 = EIsFiletype (hname h) r)"
      by (simp add: same_channels_def)
  }
  note logged = this
  from recognized logged show ?thesis by blast
qed

theorem specialized_errors_do_not_abort_witness:
  "HandleSpecialized h_special = Some (\<lambda>r. (Wrapped 3, True, Some ''trailing garbage'')) \<and>
   processHandler env_ok h_special (DiskBufferReader 0) skel_t1
     (world0 [ChanOp False, ChanOp False, ChanOp False]) =
     (Some True,
      \<lparr>ticks = [], chunksChan = [\<lparr>Metadata = ''t1'', Data = ''deb''\<rparr>],
       calls = [EHandleSpecialized ''special'' (DiskBufferReader 0),
                EFromFile ''special'' (Wrapped 3),
                EStop (DiskBufferReader 0), EClose (DiskBufferReader 0)]\<rparr>) \<and>
   processHandler env_ok (h_special\<lparr>HandleSpecialized := Some (\<lambda>_. (Wrapped 3, True, None))\<rparr>)
     (DiskBufferReader 0) skel_t1 (world0 [ChanOp False, ChanOp False, ChanOp False]) =
     (Some True,
      \<lparr>ticks = [], chunksChan = [\<lparr>Metadata = ''t1'', Data = ''deb''\<rparr>],
       calls = [EHandleSpecialized ''special'' (DiskBufferReader 0),
                EFromFile ''special'' (Wrapped 3),
                EStop (DiskBufferReader 0), EClose (DiskBufferReader 0)]\<rparr>) \<and>
   HandleSpecialized h_special_error = Some (\<lambda>r. (Wrapped 3, False, Some ''not an archive'')) \<and>
   Seek_error env_ok (DiskBufferReader 0) = None \<and>
   processHandler env_ok h_special_error (DiskBufferReader 0) skel_t1
     (world0 [ChanOp False, ChanOp False, ChanOp False]) =
     (Some True,
      \<lparr>ticks = [], chunksChan = [\<lparr>Metadata = ''t1'', Data = ''x''\<rparr>],
       calls = [EHandleSpecialized ''broken'' (DiskBufferReader 0),
                ELogError ''not an archive'' ''error handling file'',
                ESeek (DiskBufferReader 0), EIsFiletype ''broken'' (DiskBufferReader 0),
                EFromFile ''broken'' (DiskBufferReader 0),
                EStop (DiskBufferReader 0), EClose (DiskBufferReader 0)]\<rparr>) \<and>
   processHandler env_ok
     (h_special_error\<lparr>HandleSpecialized := Some (\<lambda>_. (Wrapped 3, False, None))\<rparr>)
     (DiskBufferReader 0) skel_t1 (world0 [ChanOp False, ChanOp False, ChanOp False]) =
     (Some True,
      \<lparr>ticks = [], chunksChan = [\<lparr>Metadata = ''t1'', Data = ''x''\<rparr>],
       calls = [EHandleSpecialized ''broken'' (DiskBufferReader 0),
                ESeek (DiskBufferReader 0), EIsFiletype ''broken'' (DiskBufferReader 0),
                EFromFile ''broken'' (DiskBufferReader 0),
                EStop (DiskBufferReader 0), EClose (DiskBufferReader 0)]\<rparr>)"
  using specialized_errors_do_not_abort
    [of h_special "\<lambda>r. (Wrapped 3, True, Some ''trailing garbage'')" "DiskBufferReader 0"
        "Wrapped 3" "''trailing garbage''" env_ok skel_t1
        "world0 [ChanOp False, ChanOp False, ChanOp False]"]
    specialized_errors_do_not_abort
    [of h_special_error "\<lambda>r. (Wrapped 3, False, Some ''not an archive'')" "DiskBufferReader 0"
        "Wrapped 3" "''not an archive''" env_ok skel_t1
        "world0 [ChanOp False, ChanOp False, ChanOp False]"]
  by (simp add: env_ok_def h_special_def h_special_error_def world0_def skel_t1_def
      processHandler_def processHandler_body_def processHandler_ordinary_def emit_def)

end
